theory Spec2Isabelle
  imports Complex_Main "HOL-Library.Log_Nat" "HOL-Library.Word"
begin

section \<open>Simulation drivers of jsmfsb (sim.py)\<close>

text \<open>
  The module \<^verbatim>\<open>sim.py\<close> has three functions: \<^verbatim>\<open>simTs\<close> (one realisation on a
  regular time grid, a \<^verbatim>\<open>jax.lax.scan\<close> over the split keys), \<^verbatim>\<open>simSample\<close> (many
  realisations of one time step, by \<^verbatim>\<open>jax.vmap\<close>) and \<^verbatim>\<open>simSampleMap\<close> (the same by
  \<^verbatim>\<open>jax.lax.map\<close>).

  Modelling choices.
  \<^item> A state is a value of any type \<open>'x\<close>; where the source takes \<^verbatim>\<open>len(x0)\<close> or a
    claim speaks of dimensionality it is a list and its dimension is the length.
  \<^item> The times \<^verbatim>\<open>t0\<close>, \<^verbatim>\<open>tt\<close>, \<^verbatim>\<open>dt\<close> of \<^verbatim>\<open>simTs\<close> are Python numbers: an
    \<^verbatim>\<open>int\<close> (unbounded) or a \<^verbatim>\<open>float\<close> (IEEE binary64). Line 50,
    \<^verbatim>\<open>n = int((tt-t0) // dt) + 1\<close>, is evaluated by Python: exactly on ints, and with
    the rounding, the infinities and the NaN of binary64 on floats.
  \<^item> Inside the scan the time is a JAX scalar. In JAX's default configuration
    (\<^verbatim>\<open>jax_enable_x64\<close> off) a Python int becomes a 32-bit integer, and is refused
    with an OverflowError outside the 32-bit range; a Python float becomes a binary32
    float. The sum \<^verbatim>\<open>t + dt\<close> wraps around on 32-bit integers and rounds on binary32
    floats; an integer initial time with a float step is promoted to binary32.
  \<^item> A float is modelled by its exact value, a rational, or an infinity or NaN. The
    sign of a zero is not modelled, nor is the memory that a large \<open>n\<close> needs.
  \<^item> \<^verbatim>\<open>simSample\<close> and \<^verbatim>\<open>simSampleMap\<close> only pass \<^verbatim>\<open>t0\<close> and \<^verbatim>\<open>deltat\<close> on to the
    step function, so the types of these two are left open there.
  \<^item> \<^verbatim>\<open>jax.random.split\<close> is a library function. Its result for a key and a count
    \<open>n\<close> is an array of \<open>n\<close> keys; the model takes as a parameter the function
    \<open>child key n i\<close> that gives the key at index \<open>i\<close> of that array. A negative
    count is rejected by the library.
  \<^item> \<^verbatim>\<open>jax.jit\<close> compiles a pure function and does not change what it computes.
  \<^item> The step function is a pure function of key, state, time and time step.
\<close>

datatype error =
    ZeroDivisionError   \<comment> \<open>Python: floor division by zero\<close>
  | OverflowError       \<comment> \<open>Python: int too large for a float, \<^verbatim>\<open>int\<close> of an infinity;
                            JAX: Python int outside the 32-bit range\<close>
  | ValueError          \<comment> \<open>Python: \<^verbatim>\<open>int\<close> of a NaN\<close>
  | SplitCountError     \<comment> \<open>\<^verbatim>\<open>jax.random.split\<close>: negative number of keys\<close>
  | InvalidArgument     \<comment> \<open>the specification's error of the batched sampler\<close>

subsection \<open>Binary floating point\<close>

datatype fval = Fin rat | PInf | NInf | NaN

definition pow2 :: "int \<Rightarrow> rat" where
  "pow2 e = (if 0 \<le> e then 2 ^ nat e else 1 / 2 ^ nat (- e))"

text \<open>The exponent of a positive rational: \<open>pow2 (ilog2 x) \<le> x < pow2 (ilog2 x + 1)\<close>.\<close>

definition ilog2 :: "rat \<Rightarrow> int" where
  "ilog2 x = (case quotient_of x of (a, b) \<Rightarrow>
                (let k = bitlen a - bitlen b in if pow2 k \<le> x then k else k - 1))"

definition round_half_even :: "rat \<Rightarrow> int" where
  "round_half_even y =
     (let f = \<lfloor>y\<rfloor>; d = y - of_int f
      in if d < 1 / 2 then f else if 1 / 2 < d then f + 1 else if even f then f else f + 1)"

text \<open>
  Rounding to the nearest float, ties to even, of a format with \<open>p\<close> bits of
  precision, least exponent \<open>emin\<close> of the last place (subnormal numbers) and
  overflow to an infinity from \<open>pow2 emax\<close> on.
\<close>

definition rnd :: "nat \<Rightarrow> int \<Rightarrow> int \<Rightarrow> rat \<Rightarrow> fval" where
  "rnd p emin emax x =
     (if x = 0 then Fin 0
      else (let e = max (ilog2 \<bar>x\<bar> - (int p - 1)) emin;
                r = of_int (round_half_even (x / pow2 e)) * pow2 e
            in if pow2 emax \<le> \<bar>r\<bar> then (if 0 < x then PInf else NInf) else Fin r))"

definition rnd64 :: "rat \<Rightarrow> fval" where
  "rnd64 = rnd 53 (- 1074) 1024"

definition rnd32 :: "rat \<Rightarrow> fval" where
  "rnd32 = rnd 24 (- 149) 128"

fun fneg :: "fval \<Rightarrow> fval" where
  "fneg (Fin x) = Fin (- x)"
| "fneg PInf = NInf"
| "fneg NInf = PInf"
| "fneg NaN = NaN"

fun fadd :: "(rat \<Rightarrow> fval) \<Rightarrow> fval \<Rightarrow> fval \<Rightarrow> fval" where
  "fadd r (Fin x) (Fin y) = r (x + y)"
| "fadd r NaN b = NaN"
| "fadd r a NaN = NaN"
| "fadd r PInf NInf = NaN"
| "fadd r NInf PInf = NaN"
| "fadd r PInf b = PInf"
| "fadd r NInf b = NInf"
| "fadd r (Fin x) b = b"

definition fsub :: "(rat \<Rightarrow> fval) \<Rightarrow> fval \<Rightarrow> fval \<Rightarrow> fval" where
  "fsub r a b = fadd r a (fneg b)"

text \<open>Division by a float that is not a zero.\<close>

fun fdiv :: "(rat \<Rightarrow> fval) \<Rightarrow> fval \<Rightarrow> fval \<Rightarrow> fval" where
  "fdiv r (Fin x) (Fin y) = r (x / y)"
| "fdiv r NaN b = NaN"
| "fdiv r a NaN = NaN"
| "fdiv r (Fin x) b = Fin 0"
| "fdiv r a (Fin y) = (if 0 < y then a else fneg a)"
| "fdiv r a b = NaN"

text \<open>C's \<^verbatim>\<open>fmod\<close> (exact, with the sign of the dividend) and \<^verbatim>\<open>floor\<close>.\<close>

fun fmod :: "fval \<Rightarrow> fval \<Rightarrow> fval" where
  "fmod (Fin x) (Fin y) = Fin (x - y * of_int (if 0 \<le> x / y then \<lfloor>x / y\<rfloor> else \<lceil>x / y\<rceil>))"
| "fmod NaN b = NaN"
| "fmod a NaN = NaN"
| "fmod (Fin x) b = Fin x"
| "fmod a b = NaN"

fun ffloor :: "fval \<Rightarrow> fval" where
  "ffloor (Fin x) = Fin (of_int \<lfloor>x\<rfloor>)"
| "ffloor a = a"

text \<open>C's tests \<^verbatim>\<open>if (a)\<close>, \<^verbatim>\<open>a < 0\<close> and \<^verbatim>\<open>a > 0.5\<close>; a comparison with NaN is false.\<close>

fun fnonzero :: "fval \<Rightarrow> bool" where
  "fnonzero (Fin x) = (x \<noteq> 0)"
| "fnonzero a = True"

fun fnegative :: "fval \<Rightarrow> bool" where
  "fnegative (Fin x) = (x < 0)"
| "fnegative NInf = True"
| "fnegative a = False"

fun fabove_half :: "fval \<Rightarrow> bool" where
  "fabove_half (Fin x) = (1 / 2 < x)"
| "fabove_half PInf = True"
| "fabove_half a = False"

subsection \<open>Python numbers and line 50\<close>

datatype pynum = PyInt int | PyFloat fval

text \<open>
  A Python int that meets a float is converted to a float, correctly rounded; it is
  an OverflowError when the int is too large.
\<close>

fun to_double :: "pynum \<Rightarrow> error + fval" where
  "to_double (PyFloat f) = Inr f"
| "to_double (PyInt i) =
     (case rnd64 (of_int i) of Fin r \<Rightarrow> Inr (Fin r) | _ \<Rightarrow> Inl OverflowError)"

text \<open>Python's \<^verbatim>\<open>a - b\<close>.\<close>

fun py_sub :: "pynum \<Rightarrow> pynum \<Rightarrow> error + pynum" where
  "py_sub (PyInt a) (PyInt b) = Inr (PyInt (a - b))"
| "py_sub a b =
     (case to_double a of Inl e \<Rightarrow> Inl e
      | Inr x \<Rightarrow> (case to_double b of Inl e \<Rightarrow> Inl e
                  | Inr y \<Rightarrow> Inr (PyFloat (fsub rnd64 x y))))"

text \<open>
  The floor division of two floats in CPython (\<^verbatim>\<open>float_floor_div\<close>), the divisor
  not a zero:
  \<^verbatim>\<open>
  mod = fmod(vx, wx);
  div = (vx - mod) / wx;
  if (mod) { if ((wx < 0) != (mod < 0)) { mod += wx; div -= 1.0; } }
  if (div) { floordiv = floor(div); if (div - floordiv > 0.5) floordiv += 1.0; }
  else floordiv = copysign(0.0, vx / wx);
  \<close>
\<close>

definition float_floor_div :: "fval \<Rightarrow> fval \<Rightarrow> fval" where
  "float_floor_div vx wx =
     (let m = fmod vx wx;
          q = fdiv rnd64 (fsub rnd64 vx m) wx;
          q' = (if fnonzero m \<and> (fnegative wx \<noteq> fnegative m) then fsub rnd64 q (Fin 1) else q)
      in if fnonzero q'
         then (let floordiv = ffloor q'
               in if fabove_half (fsub rnd64 q' floordiv) then fadd rnd64 floordiv (Fin 1)
                  else floordiv)
         else Fin 0)"

text \<open>Python's \<^verbatim>\<open>a // b\<close>.\<close>

fun py_floordiv :: "pynum \<Rightarrow> pynum \<Rightarrow> error + pynum" where
  "py_floordiv (PyInt a) (PyInt b) =
     (if b = 0 then Inl ZeroDivisionError else Inr (PyInt (a div b)))"
| "py_floordiv a b =
     (case to_double a of Inl e \<Rightarrow> Inl e
      | Inr vx \<Rightarrow> (case to_double b of Inl e \<Rightarrow> Inl e
                   | Inr wx \<Rightarrow> if wx = Fin 0 then Inl ZeroDivisionError
                               else Inr (PyFloat (float_floor_div vx wx))))"

text \<open>Python's \<^verbatim>\<open>int(q)\<close>: truncation towards zero.\<close>

fun py_int :: "pynum \<Rightarrow> error + int" where
  "py_int (PyInt i) = Inr i"
| "py_int (PyFloat (Fin x)) = Inr (if 0 \<le> x then \<lfloor>x\<rfloor> else \<lceil>x\<rceil>)"
| "py_int (PyFloat NaN) = Inl ValueError"
| "py_int (PyFloat a) = Inl OverflowError"

text \<open>Line 50: \<^verbatim>\<open>n = int((tt-t0) // dt) + 1\<close>.\<close>

definition step_count :: "pynum \<Rightarrow> pynum \<Rightarrow> pynum \<Rightarrow> error + int" where
  "step_count t0 tt dt =
     (case py_sub tt t0 of Inl e \<Rightarrow> Inl e
      | Inr d \<Rightarrow> (case py_floordiv d dt of Inl e \<Rightarrow> Inl e
                  | Inr q \<Rightarrow> (case py_int q of Inl e \<Rightarrow> Inl e
                              | Inr i \<Rightarrow> Inr (i + 1))))"

subsection \<open>JAX scalars\<close>

datatype jnum = I32 "32 word" | F32 fval

definition in_int32 :: "int \<Rightarrow> bool" where
  "in_int32 i = (- (2 ^ 31) \<le> i \<and> i < 2 ^ 31)"

fun to_f32 :: "fval \<Rightarrow> fval" where
  "to_f32 (Fin x) = rnd32 x"
| "to_f32 a = a"

text \<open>
  A Python scalar that enters a traced computation: the initial time of the carry,
  and \<^verbatim>\<open>dt\<close> in the sum \<^verbatim>\<open>t + dt\<close>.
\<close>

fun abstractify :: "pynum \<Rightarrow> error + jnum" where
  "abstractify (PyInt i) = (if in_int32 i then Inr (I32 (word_of_int i)) else Inl OverflowError)"
| "abstractify (PyFloat f) = Inr (F32 (to_f32 f))"

definition f32_of_i32 :: "32 word \<Rightarrow> fval" where
  "f32_of_i32 w = rnd32 (of_int (sint w))"

text \<open>The sum of two JAX scalars; an integer that meets a float is converted.\<close>

fun jadd :: "jnum \<Rightarrow> jnum \<Rightarrow> jnum" where
  "jadd (I32 a) (I32 b) = I32 (a + b)"
| "jadd (F32 a) (F32 b) = F32 (fadd rnd32 a b)"
| "jadd (I32 a) (F32 b) = F32 (fadd rnd32 (f32_of_i32 a) b)"
| "jadd (F32 a) (I32 b) = F32 (fadd rnd32 a (f32_of_i32 b))"

text \<open>
  The carry of a scan keeps its type: an integer initial time is converted to a
  float when the step \<^verbatim>\<open>dt\<close> is a float.
\<close>

fun promote :: "jnum \<Rightarrow> jnum \<Rightarrow> jnum" where
  "promote (I32 a) (F32 h) = F32 (f32_of_i32 a)"
| "promote c h = c"

subsection \<open>The library primitives the source calls\<close>

definition split :: "('k \<Rightarrow> nat \<Rightarrow> nat \<Rightarrow> 'k) \<Rightarrow> 'k \<Rightarrow> int \<Rightarrow> error + 'k list" where
  "split child key n =
     (if n < 0 then Inl SplitCountError
      else Inr (map (child key (nat n)) [0..<nat n]))"

text \<open>
  \<^verbatim>\<open>jax.lax.scan(f, init, xs)\<close>: thread the carry through \<open>xs\<close> from left to right and
  stack the second components of the results of \<open>f\<close>.
\<close>

fun scan :: "('c \<Rightarrow> 'a \<Rightarrow> 'c \<times> 'b) \<Rightarrow> 'c \<Rightarrow> 'a list \<Rightarrow> 'c \<times> 'b list" where
  "scan f init [] = (init, [])"
| "scan f init (x # xs) =
     (case f init x of (carry, y) \<Rightarrow>
        (case scan f carry xs of (final, ys) \<Rightarrow> (final, y # ys)))"

definition jit :: "'f \<Rightarrow> 'f" where
  "jit f = f"

text \<open>\<^verbatim>\<open>jax.vmap(f)\<close>: apply \<open>f\<close> along the leading axis, all rows at once.\<close>

definition vmap :: "('a \<Rightarrow> 'b) \<Rightarrow> 'a list \<Rightarrow> 'b list" where
  "vmap f xs = map f xs"

text \<open>
  \<^verbatim>\<open>jax.lax.map(f, xs)\<close>: a scan with an empty carry that applies \<open>f\<close> to one element
  after the other.
\<close>

definition lax_map :: "('a \<Rightarrow> 'b) \<Rightarrow> 'a list \<Rightarrow> 'b list" where
  "lax_map f xs = snd (scan (\<lambda>_ x. ((), f x)) () xs)"

subsection \<open>simTs\<close>

text \<open>
  \<^verbatim>\<open>
  n = int((tt-t0) // dt) + 1
  keys = jax.random.split(key, n)
  @jit
  def advance(state, key):
      x, t = state
      x = stepFun(key, x, t, dt)
      t = t + dt
      return (x, t), x
  _, mat = jl.scan(advance, (x0, t0), keys)
  return mat
  \<close>
  The step function gets the carried time \<open>t\<close>, a JAX scalar, and \<^verbatim>\<open>dt\<close> as the
  Python number it is; \<open>h\<close> is \<^verbatim>\<open>dt\<close> as it enters the sum \<^verbatim>\<open>t + dt\<close>.
\<close>

definition advance ::
  "('k \<Rightarrow> 'x \<Rightarrow> jnum \<Rightarrow> pynum \<Rightarrow> 'x) \<Rightarrow> pynum \<Rightarrow> jnum \<Rightarrow> 'x \<times> jnum \<Rightarrow> 'k \<Rightarrow> ('x \<times> jnum) \<times> 'x" where
  "advance stepFun dt h state key =
     (case state of (x, t) \<Rightarrow>
        (let x' = stepFun key x t dt;
             t' = jadd t h
         in ((x', t'), x')))"

definition simTs ::
  "('k \<Rightarrow> nat \<Rightarrow> nat \<Rightarrow> 'k) \<Rightarrow> 'k \<Rightarrow> 'x \<Rightarrow> pynum \<Rightarrow> pynum \<Rightarrow> pynum
     \<Rightarrow> ('k \<Rightarrow> 'x \<Rightarrow> jnum \<Rightarrow> pynum \<Rightarrow> 'x) \<Rightarrow> error + 'x list" where
  "simTs child key x0 t0 tt dt stepFun =
     (case step_count t0 tt dt of
        Inl e \<Rightarrow> Inl e
      | Inr n \<Rightarrow>
          (case split child key n of
             Inl e \<Rightarrow> Inl e
           | Inr keys \<Rightarrow>
               (case abstractify t0 of
                  Inl e \<Rightarrow> Inl e
                | Inr c \<Rightarrow>
                    (case abstractify dt of
                       Inl e \<Rightarrow> Inl e
                     | Inr h \<Rightarrow>
                         (case scan (jit (advance stepFun dt h)) (x0, promote c h) keys of
                            (_, mat) \<Rightarrow> Inr mat)))))"

subsection \<open>simSample and simSampleMap\<close>

text \<open>
  \<^verbatim>\<open>
  u = len(x0)
  keys = jax.random.split(key, n)
  vstep = jit(jax.vmap(lambda k: stepFun(k, x0, t0, deltat)))
  mat = vstep(keys)
  return mat
  \<close>
  and, in \<^verbatim>\<open>simSampleMap\<close>,
  \<^verbatim>\<open>mat = jl.map(lambda k: stepFun(k, x0, t0, deltat), keys)\<close>.
\<close>

definition simSample ::
  "('k \<Rightarrow> nat \<Rightarrow> nat \<Rightarrow> 'k) \<Rightarrow> 'k \<Rightarrow> int \<Rightarrow> 'a list \<Rightarrow> 't \<Rightarrow> 'd
     \<Rightarrow> ('k \<Rightarrow> 'a list \<Rightarrow> 't \<Rightarrow> 'd \<Rightarrow> 'a list) \<Rightarrow> error + 'a list list" where
  "simSample child key n x0 t0 deltat stepFun =
     (let u = length x0 in
      case split child key n of
        Inl e \<Rightarrow> Inl e
      | Inr keys \<Rightarrow>
          (let vstep = jit (vmap (\<lambda>k. stepFun k x0 t0 deltat));
               mat = vstep keys
           in Inr mat))"

definition simSampleMap ::
  "('k \<Rightarrow> nat \<Rightarrow> nat \<Rightarrow> 'k) \<Rightarrow> 'k \<Rightarrow> int \<Rightarrow> 'a list \<Rightarrow> 't \<Rightarrow> 'd
     \<Rightarrow> ('k \<Rightarrow> 'a list \<Rightarrow> 't \<Rightarrow> 'd \<Rightarrow> 'a list) \<Rightarrow> error + 'a list list" where
  "simSampleMap child key n x0 t0 deltat stepFun =
     (let u = length x0 in
      case split child key n of
        Inl e \<Rightarrow> Inl e
      | Inr keys \<Rightarrow>
          (let mat = lax_map (\<lambda>k. stepFun k x0 t0 deltat) keys
           in Inr mat))"

subsection \<open>The batched sampler\<close>

text \<open>
  Modelled from the spec: the batched ensemble sampler (\<^verbatim>\<open>sim_sample\<close> with a
  \<^verbatim>\<open>batch_size\<close> argument) is called by the tests but is not in \<^verbatim>\<open>sim.py\<close>, where
  it is a TODO. The specification (4.4, 7) says: the batch size is at least one; a
  non-positive \<open>n\<close> or batch size, and a batch size above \<open>n\<close>, are invalid arguments;
  the seed is split into \<open>n\<close> child streams once, as in the vectorized sampler; the
  streams are partitioned into consecutive groups of the batch size, the last group
  possibly smaller; the vectorized strategy is applied to each group and the results
  are concatenated in group order.
\<close>

function groups :: "nat \<Rightarrow> 'a list \<Rightarrow> 'a list list" where
  "groups b xs = (if b = 0 \<or> xs = [] then [] else take b xs # groups b (drop b xs))"
  by pat_completeness auto
termination
  by (relation "measure (\<lambda>(b, xs). length xs)") auto

definition simulateSampleBatched ::
  "('k \<Rightarrow> nat \<Rightarrow> nat \<Rightarrow> 'k) \<Rightarrow> 'k \<Rightarrow> int \<Rightarrow> 'a list \<Rightarrow> 't \<Rightarrow> 'd
     \<Rightarrow> ('k \<Rightarrow> 'a list \<Rightarrow> 't \<Rightarrow> 'd \<Rightarrow> 'a list) \<Rightarrow> int \<Rightarrow> error + 'a list list" where
  "simulateSampleBatched child seed n x0 t0 deltat advanceFun batchSize =
     (if n \<le> 0 \<or> batchSize \<le> 0 \<or> n < batchSize then Inl InvalidArgument
      else case split child seed n of
             Inl e \<Rightarrow> Inl e
           | Inr streams \<Rightarrow>
               Inr (concat (map (vmap (\<lambda>s. advanceFun s x0 t0 deltat))
                                (groups (nat batchSize) streams))))"

subsection \<open>Concrete inputs for the examples\<close>

text \<open>
  A counter-based stand-in for the children of a key; the step function that returns
  the state unchanged; a step function that adds its key to every component; a step
  function that returns the time it is called with; a step function that returns the
  time its result belongs to, the time of the call advanced by the step; and the
  values of the Python float literals \<^verbatim>\<open>0.1\<close>, \<^verbatim>\<open>1.1\<close>, \<^verbatim>\<open>0.59\<close> and \<^verbatim>\<open>0.6\<close>.
\<close>

definition counter_child :: "nat \<Rightarrow> nat \<Rightarrow> nat \<Rightarrow> nat" where
  "counter_child key n i = key + n + i"

definition trivial_step :: "'k \<Rightarrow> 'x \<Rightarrow> 't \<Rightarrow> 'd \<Rightarrow> 'x" where
  "trivial_step key x t dt = x"

definition shift_step :: "nat \<Rightarrow> int list \<Rightarrow> 't \<Rightarrow> 'd \<Rightarrow> int list" where
  "shift_step key x t dt = map (\<lambda>v. v + int key) x"

definition clock_step :: "'k \<Rightarrow> jnum \<Rightarrow> jnum \<Rightarrow> pynum \<Rightarrow> jnum" where
  "clock_step key x t dt = t"


definition binary64_tenth :: rat where
  "binary64_tenth = 3602879701896397 / 2 ^ 55"

definition binary64_1_1 :: rat where
  "binary64_1_1 = 2476979795053773 / 2 ^ 51"

definition binary64_0_59 :: rat where
  "binary64_0_59 = 5314247560297185 / 2 ^ 53"

definition binary64_0_6 :: rat where
  "binary64_0_6 = 5404319552844595 / 2 ^ 53"

section \<open>Properties\<close>

subsection \<open>Scan and the two ways of mapping\<close>

lemma scan_unit_carry: "scan (\<lambda>_ x. ((), f x)) () xs = ((), map f xs)"
  by (induction xs) simp_all

lemma lax_map_eq_map: "lax_map f xs = map f xs"
  by (simp add: lax_map_def scan_unit_carry)

lemma lax_map_eq_vmap: "lax_map f xs = vmap f xs"
  by (simp add: lax_map_eq_map vmap_def)

text \<open>
  Claim C2. For every key, every count \<open>n\<close> (also zero or negative, where both reject
  or return nothing alike) and every step function, \<open>simSample\<close> (by \<open>vmap\<close>) and
  \<open>simSampleMap\<close> (by \<open>lax_map\<close>) return the same ensemble: both split the key into
  the same children in the same order and apply the same step function to each.
\<close>

theorem simSample_eq_simSampleMap:
  "simSample child key n x0 t0 deltat stepFun = simSampleMap child key n x0 t0 deltat stepFun"
  by (simp add: simSample_def simSampleMap_def jit_def lax_map_eq_vmap split: sum.split)

subsection \<open>The split and the groups\<close>

declare groups.simps [simp del]

lemma split_nonneg: "0 \<le> n \<Longrightarrow> split child key n = Inr (map (child key (nat n)) [0..<nat n])"
  by (simp add: split_def)

lemma split_neg: "n < 0 \<Longrightarrow> split child key n = Inl SplitCountError"
  by (simp add: split_def)

lemma concat_groups: "0 < b \<Longrightarrow> concat (groups b xs) = xs"
proof (induction b xs rule: groups.induct)
  case (1 b xs)
  show ?case
  proof (cases "xs = []")
    case True
    then show ?thesis by (simp add: groups.simps)
  next
    case False
    with 1 have "concat (groups b (drop b xs)) = drop b xs" by simp
    with False 1(2) show ?thesis by (subst groups.simps) simp
  qed
qed

lemma vmap_eq_map: "vmap f = map f"
  by (rule ext) (simp add: vmap_def)

lemma concat_map_vmap: "concat (map (vmap f) xss) = vmap f (concat xss)"
  by (simp add: vmap_eq_map map_concat)

text \<open>
  Claim C1. For every seed, every \<open>n \<ge> 1\<close> and every batch size between \<open>1\<close> and
  \<open>n\<close>, the batched sampler returns an ensemble, and it is the ensemble that
  \<open>simSample\<close> returns for the same seed, \<open>n\<close>, initial state, times and step
  function: grouping the child streams and concatenating the groups' results changes
  nothing.
\<close>

theorem simulateSampleBatched_eq_simSample:
  assumes "1 \<le> n" and "1 \<le> batchSize" and "batchSize \<le> n"
  shows "\<exists>mat. simSample child key n x0 t0 deltat stepFun = Inr mat
           \<and> simulateSampleBatched child key n x0 t0 deltat stepFun batchSize = Inr mat"
  using assms
  by (simp add: simulateSampleBatched_def simSample_def jit_def split_nonneg
        concat_map_vmap concat_groups)

theorem simulateSampleBatched_eq_simSample_witness:
  "(1::int) \<le> 5 \<and> (1::int) \<le> 2 \<and> (2::int) \<le> 5
   \<and> (\<exists>mat. simSample counter_child 42 5 [50, 100] (PyInt 0) (PyInt 10) shift_step = Inr mat
         \<and> simulateSampleBatched counter_child 42 5 [50, 100] (PyInt 0) (PyInt 10) shift_step 2
             = Inr mat)"
  using simulateSampleBatched_eq_simSample
    [of 5 2 counter_child 42 "[50, 100]" "PyInt 0" "PyInt 10" shift_step]
  by simp

text \<open>
  Claim C8. For every key, \<open>n \<ge> 1\<close>, initial state, times and step function, the key
  is split into \<open>n\<close> children and \<open>simSample\<close> returns \<open>n\<close> rows, row \<open>i\<close> being
  the step function applied to child \<open>i\<close> and to the same initial state, initial
  time and time span.
\<close>

theorem simSample_rows:
  assumes "1 \<le> n"
  shows "\<exists>keys mat. split child key n = Inr keys
           \<and> simSample child key n x0 t0 deltat stepFun = Inr mat
           \<and> int (length keys) = n \<and> int (length mat) = n
           \<and> (\<forall>i<length mat. mat ! i = stepFun (keys ! i) x0 t0 deltat)"
  using assms by (simp add: simSample_def jit_def vmap_def split_nonneg)

theorem simSample_rows_witness:
  "(1::int) \<le> 3
   \<and> (\<exists>keys mat. split counter_child 42 3 = Inr keys
         \<and> simSample counter_child 42 3 [50, 100] (PyInt 0) (PyInt 10) shift_step = Inr mat
         \<and> int (length keys) = 3 \<and> int (length mat) = 3
         \<and> (\<forall>i<length mat. mat ! i = shift_step (keys ! i) [50, 100] (PyInt 0) (PyInt 10)))"
  using simSample_rows [of 3 counter_child 42 "[50, 100]" "PyInt 0" "PyInt 10" shift_step]
  by simp

subsection \<open>Line 50 on Python ints\<close>

lemma step_count_int:
  "step_count (PyInt a) (PyInt b) (PyInt d) =
     (if d = 0 then Inl ZeroDivisionError else Inr ((b - a) div d + 1))"
  by (simp add: step_count_def)

lemma floor_int_quotient: "\<lfloor>(of_int b - of_int a) / (of_int d :: rat)\<rfloor> = (b - a) div d"
proof -
  have "\<lfloor>(of_int (b - a) :: rat) / of_int d\<rfloor> = (b - a) div d"
    by (rule floor_divide_of_int_eq)
  then show ?thesis by simp
qed

lemma abstractify_int: "in_int32 i \<Longrightarrow> abstractify (PyInt i) = Inr (I32 (word_of_int i))"
  by simp

subsection \<open>The scan of simTs\<close>

lemma scan_advance_Cons:
  "scan (advance stepFun dt h) (x, t) (k # ks) =
     (fst (scan (advance stepFun dt h) (stepFun k x t dt, jadd t h) ks),
      stepFun k x t dt # snd (scan (advance stepFun dt h) (stepFun k x t dt, jadd t h) ks))"
  by (auto simp: advance_def Let_def split: prod.split)

lemma scan_advance_length: "length (snd (scan (advance stepFun dt h) c keys)) = length keys"
proof (induction keys arbitrary: c)
  case Nil
  show ?case by simp
next
  case (Cons k ks)
  obtain x t where c: "c = (x, t)" by (cases c)
  show ?case unfolding c scan_advance_Cons by (simp add: Cons.IH)
qed

lemma scan_advance_nth:
  "i < length keys \<Longrightarrow>
   snd (scan (advance stepFun dt h) (x, t) keys) ! i =
     stepFun (keys ! i)
       (if i = 0 then x else snd (scan (advance stepFun dt h) (x, t) keys) ! (i - 1))
       (((\<lambda>u. jadd u h) ^^ i) t) dt"
proof (induction keys arbitrary: x t i)
  case Nil
  then show ?case by simp
next
  case (Cons k ks)
  show ?case
  proof (cases i)
    case 0
    then show ?thesis unfolding scan_advance_Cons by simp
  next
    case (Suc j)
    with Cons.prems have j: "j < length ks" by simp
    let ?x' = "stepFun k x t dt"
    let ?rest = "snd (scan (advance stepFun dt h) (?x', jadd t h) ks)"
    have rows: "snd (scan (advance stepFun dt h) (x, t) (k # ks)) = ?x' # ?rest"
      by (simp only: scan_advance_Cons snd_conv)
    have time: "((\<lambda>u. jadd u h) ^^ j) (jadd t h) = ((\<lambda>u. jadd u h) ^^ Suc j) t"
      by (simp only: funpow_Suc_right o_apply)
    have prev: "(if j = 0 then ?x' else ?rest ! (j - 1)) = (?x' # ?rest) ! j"
      by (cases j) simp_all
    have "(?x' # ?rest) ! Suc j = ?rest ! j" by simp
    also have "\<dots> = stepFun (ks ! j) (if j = 0 then ?x' else ?rest ! (j - 1))
                        (((\<lambda>u. jadd u h) ^^ j) (jadd t h)) dt"
      by (rule Cons.IH [OF j])
    also have "\<dots> = stepFun ((k # ks) ! Suc j) ((?x' # ?rest) ! j)
                        (((\<lambda>u. jadd u h) ^^ Suc j) t) dt"
      by (simp only: time prev nth_Cons_Suc)
    finally show ?thesis
      unfolding rows Suc by (simp only: nat.simps if_False diff_Suc_1)
  qed
qed


lemma scan_advance_trivial:
  "snd (scan (advance trivial_step dt h) (x, t) keys) = replicate (length keys) x"
proof (induction keys arbitrary: t)
  case Nil
  show ?case by simp
next
  case (Cons k ks)
  show ?case unfolding scan_advance_Cons by (simp add: Cons.IH trivial_step_def)
qed

subsection \<open>The runs of simTs\<close>

lemma simTs_run:
  assumes "step_count t0 tt dt = Inr n" and "0 \<le> n"
    and "abstractify t0 = Inr c" and "abstractify dt = Inr h"
  shows "simTs child key x0 t0 tt dt stepFun =
     Inr (snd (scan (advance stepFun dt h) (x0, promote c h)
            (map (child key (nat n)) [0..<nat n])))"
  using assms by (simp add: simTs_def split_nonneg jit_def split: prod.split)

lemma simTs_neg_count:
  "step_count t0 tt dt = Inr n \<Longrightarrow> n < 0 \<Longrightarrow> simTs child key x0 t0 tt dt stepFun = Inl SplitCountError"
  by (simp add: simTs_def split_neg)

lemma simTs_count_error:
  "step_count t0 tt dt = Inl e \<Longrightarrow> simTs child key x0 t0 tt dt stepFun = Inl e"
  by (simp add: simTs_def)

lemma simTs_returns:
  assumes "simTs child key x0 t0 tt dt stepFun = Inr mat"
  shows "\<exists>n c h. step_count t0 tt dt = Inr n \<and> 0 \<le> n
           \<and> abstractify t0 = Inr c \<and> abstractify dt = Inr h
           \<and> mat = snd (scan (advance stepFun dt h) (x0, promote c h)
                          (map (child key (nat n)) [0..<nat n]))"
  using assms
  by (auto simp: simTs_def split_def jit_def split: sum.splits if_splits prod.splits)

lemma int_time_iterate:
  "((\<lambda>u. jadd u (I32 (word_of_int d))) ^^ i) (I32 (word_of_int a)) = I32 (word_of_int (a + int i * d))"
  by (induction i) (simp_all add: algebra_simps)

lemma abstractify_zero: "abstractify (PyInt 0) = Inr (I32 0)"
  by (simp add: in_int32_def)

lemma simTs_int_run:
  assumes "d \<noteq> 0" and "0 \<le> (b - a) div d + 1" and "in_int32 a" and "in_int32 d"
  shows "simTs child key x0 (PyInt a) (PyInt b) (PyInt d) stepFun =
     Inr (snd (scan (advance stepFun (PyInt d) (I32 (word_of_int d))) (x0, I32 (word_of_int a))
            (map (child key (nat ((b - a) div d + 1))) [0..<nat ((b - a) div d + 1)])))"
proof -
  have "step_count (PyInt a) (PyInt b) (PyInt d) = Inr ((b - a) div d + 1)"
    using assms(1) by (simp add: step_count_int)
  from simTs_run [OF this assms(2) abstractify_int [OF assms(3)] abstractify_int [OF assms(4)]]
  show ?thesis by simp
qed

lemma valid_int_count: "(a::int) < b \<Longrightarrow> 0 < d \<Longrightarrow> 0 \<le> (b - a) div d"
  by (simp add: pos_imp_zdiv_nonneg_iff)

lemma simTs_trivial_float:
  assumes "step_count (PyFloat f0) (PyFloat f1) (PyFloat f2) = Inr n" and "0 \<le> n"
  shows "simTs child key x0 (PyFloat f0) (PyFloat f1) (PyFloat f2) trivial_step
           = Inr (replicate (nat n) x0)"
proof -
  have "abstractify (PyFloat f0) = Inr (F32 (to_f32 f0))"
    and "abstractify (PyFloat f2) = Inr (F32 (to_f32 f2))" by simp_all
  from simTs_run [OF assms this, of child key x0 trivial_step]
  show ?thesis by (simp add: scan_advance_trivial)
qed

subsection \<open>The scenario with the time step 0.1\<close>

lemma step_count_tenth: "step_count (PyInt 0) (PyInt 10) (PyFloat (Fin binary64_tenth)) = Inr 100"
  by code_simp

lemma simTs_tenth:
  "simTs child key x0 (PyInt 0) (PyInt 10) (PyFloat (Fin binary64_tenth)) trivial_step
     = Inr (replicate 100 x0)"
proof -
  have "abstractify (PyFloat (Fin binary64_tenth)) = Inr (F32 (to_f32 (Fin binary64_tenth)))"
    by simp
  from simTs_run [OF step_count_tenth _ abstractify_zero this, of child key x0 trivial_step]
  show ?thesis by (simp add: scan_advance_trivial)
qed

text \<open>
  Claim C4, as stated, fails on the code. With \<open>x0 = [50, 100]\<close>, \<open>t0 = 0\<close>,
  \<open>tt = 10\<close>, the float \<^verbatim>\<open>0.1\<close> and the step function that returns the state
  unchanged, \<open>simTs\<close> does not return 101 rows equal to \<open>[50, 100]\<close>: the float is
  larger than one tenth, \<^verbatim>\<open>10 - 0\<close> is an integer subtraction and Python's float floor
  division of \<open>10\<close> by \<^verbatim>\<open>0.1\<close> returns \<^verbatim>\<open>99.0\<close>. The repository's test
  \<^verbatim>\<open>test_simts\<close> expects the shape \<open>(100, 2)\<close> for these times.
\<close>

theorem simTs_tenth_counterexample:
  "simTs counter_child 42 [50, 100 :: int] (PyInt 0) (PyInt 10) (PyFloat (Fin binary64_tenth)) trivial_step
     \<noteq> Inr (replicate 101 [50, 100])"
proof -
  have "replicate 100 [50, 100 :: int] \<noteq> replicate 101 [50, 100]"
  proof
    assume "replicate 100 [50, 100 :: int] = replicate 101 [50, 100]"
    then have "length (replicate 100 [50, 100 :: int]) = length (replicate 101 [50, 100 :: int])"
      by (rule arg_cong)
    then show False by simp
  qed
  then show ?thesis by (simp add: simTs_tenth)
qed

text \<open>
  Claim C4, amended. For these inputs, and every key and split, \<open>simTs\<close> returns
  exactly 100 rows, every row equal to \<open>[50, 100]\<close>.
\<close>

theorem simTs_tenth_rows:
  "simTs child key [50, 100 :: int] (PyInt 0) (PyInt 10) (PyFloat (Fin binary64_tenth)) trivial_step
     = Inr (replicate 100 [50, 100])"
  by (rule simTs_tenth)

subsection \<open>The number of rows\<close>





subsection \<open>The terminal time\<close>

lemma step_count_0_59:
  "step_count (PyFloat (Fin binary64_tenth)) (PyFloat (Fin binary64_0_59)) (PyFloat (Fin (1 / 2))) = Inr 1"
  by code_simp

lemma step_count_0_6:
  "step_count (PyFloat (Fin binary64_tenth)) (PyFloat (Fin binary64_0_6)) (PyFloat (Fin (1 / 2))) = Inr 2"
  by code_simp

text \<open>
  Claim C10, as stated, fails on the code. For the floats \<open>t0 = 0.1\<close> and \<open>dt = 0.5\<close>
  the terminal times \<open>0.59\<close> and \<open>0.6\<close> have the same floor of \<open>(tt - t0) / dt\<close>,
  zero, but \<^verbatim>\<open>0.6 - 0.1\<close> is rounded to \<open>0.5\<close>: \<open>simTs\<close> returns one row for the
  first and two rows for the second.
\<close>

theorem simTs_terminal_time_counterexample:
  "simTs counter_child 42 [50, 100 :: int]
       (PyFloat (Fin binary64_tenth)) (PyFloat (Fin binary64_0_59)) (PyFloat (Fin (1 / 2))) trivial_step
     = Inr [[50, 100]]
   \<and> simTs counter_child 42 [50, 100 :: int]
       (PyFloat (Fin binary64_tenth)) (PyFloat (Fin binary64_0_6)) (PyFloat (Fin (1 / 2))) trivial_step
     = Inr [[50, 100], [50, 100]]
   \<and> \<lfloor>(binary64_0_59 - binary64_tenth) / (1 / 2)\<rfloor> = \<lfloor>(binary64_0_6 - binary64_tenth) / (1 / 2)\<rfloor>"
proof (intro conjI)
  show "simTs counter_child 42 [50, 100 :: int]
       (PyFloat (Fin binary64_tenth)) (PyFloat (Fin binary64_0_59)) (PyFloat (Fin (1 / 2))) trivial_step
     = Inr [[50, 100]]"
    using simTs_trivial_float [OF step_count_0_59, of counter_child 42 "[50, 100]"] by simp
  show "simTs counter_child 42 [50, 100 :: int]
       (PyFloat (Fin binary64_tenth)) (PyFloat (Fin binary64_0_6)) (PyFloat (Fin (1 / 2))) trivial_step
     = Inr [[50, 100], [50, 100]]"
    using simTs_trivial_float [OF step_count_0_6, of counter_child 42 "[50, 100]"]
    by (simp add: numeral_2_eq_2)
  have "\<lfloor>(binary64_0_59 - binary64_tenth) / (1 / 2)\<rfloor> = 0"
    and "\<lfloor>(binary64_0_6 - binary64_tenth) / (1 / 2)\<rfloor> = 0"
    by (simp_all add: binary64_0_59_def binary64_0_6_def binary64_tenth_def floor_eq_iff)
  then show "\<lfloor>(binary64_0_59 - binary64_tenth) / (1 / 2)\<rfloor> = \<lfloor>(binary64_0_6 - binary64_tenth) / (1 / 2)\<rfloor>"
    by (simp only:)
qed

text \<open>
  Claim C10, amended. The terminal time enters \<open>simTs\<close> only through the \<open>n\<close> of
  line 50: two terminal times with the same \<^verbatim>\<open>int((tt-t0) // dt) + 1\<close>, as Python
  evaluates it, give the same result (the same trajectory or the same error). For
  int arguments these are the terminal times with the same \<open>\<lfloor>(tt - t0) / dt\<rfloor>\<close>.
\<close>

theorem simTs_terminal_time:
  "(step_count t0 tt1 dt = step_count t0 tt2 dt \<longrightarrow>
      simTs child key x0 t0 tt1 dt stepFun = simTs child key x0 t0 tt2 dt stepFun)
   \<and> (\<lfloor>(of_int b1 - of_int a) / (of_int d :: rat)\<rfloor> = \<lfloor>(of_int b2 - of_int a) / (of_int d :: rat)\<rfloor> \<longrightarrow>
      simTs child key x0 (PyInt a) (PyInt b1) (PyInt d) stepFun
        = simTs child key x0 (PyInt a) (PyInt b2) (PyInt d) stepFun)"
proof (intro conjI impI)
  assume "step_count t0 tt1 dt = step_count t0 tt2 dt"
  then show "simTs child key x0 t0 tt1 dt stepFun = simTs child key x0 t0 tt2 dt stepFun"
    by (simp add: simTs_def)
next
  assume "\<lfloor>(of_int b1 - of_int a) / (of_int d :: rat)\<rfloor> = \<lfloor>(of_int b2 - of_int a) / (of_int d :: rat)\<rfloor>"
  then have "(b1 - a) div d = (b2 - a) div d" by (simp only: floor_int_quotient)
  then have "step_count (PyInt a) (PyInt b1) (PyInt d) = step_count (PyInt a) (PyInt b2) (PyInt d)"
    by (simp add: step_count_int)
  then show "simTs child key x0 (PyInt a) (PyInt b1) (PyInt d) stepFun
        = simTs child key x0 (PyInt a) (PyInt b2) (PyInt d) stepFun"
    by (simp add: simTs_def)
qed

theorem simTs_terminal_time_witness:
  "step_count (PyInt 0) (PyInt 10) (PyInt 3) = step_count (PyInt 0) (PyInt 11) (PyInt 3)
   \<and> simTs counter_child 42 [50, 100] (PyInt 0) (PyInt 10) (PyInt 3) shift_step
       = simTs counter_child 42 [50, 100] (PyInt 0) (PyInt 11) (PyInt 3) shift_step
   \<and> \<lfloor>(of_int 10 - of_int 0) / (of_int 3 :: rat)\<rfloor> = \<lfloor>(of_int 11 - of_int 0) / (of_int 3 :: rat)\<rfloor>"
proof -
  have c: "step_count (PyInt 0) (PyInt 10) (PyInt 3) = step_count (PyInt 0) (PyInt 11) (PyInt 3)"
    by (simp add: step_count_int)
  have "\<lfloor>(10 :: rat) / 3\<rfloor> = 3" and "\<lfloor>(11 :: rat) / 3\<rfloor> = 3" by (simp_all add: floor_eq_iff)
  then have f: "\<lfloor>(of_int 10 - of_int 0) / (of_int 3 :: rat)\<rfloor> = \<lfloor>(of_int 11 - of_int 0) / (of_int 3 :: rat)\<rfloor>"
    by simp
  from c f simTs_terminal_time [of "PyInt 0" "PyInt 10" "PyInt 3" "PyInt 11" counter_child 42 "[50, 100]" shift_step]
  show ?thesis by blast
qed

subsection \<open>The recurrence\<close>

text \<open>
  Claim C6, as stated, fails on the code. With the floats \<open>t0 = 0.0\<close>, \<open>tt = 0.25\<close>
  and \<open>dt = 0.1\<close>, and the step function that returns the time it is called with, the
  three steps are called at the binary32 times \<open>0\<close>, \<open>0.1\<close> and \<open>0.2\<close>: the second
  call is at \<open>13421773 / 2 ^ 27\<close>, which is not \<open>t0 + 1 * dt\<close>.
\<close>

theorem simTs_recurrence_counterexample:
  "simTs counter_child 42 (F32 (Fin 0)) (PyFloat (Fin 0)) (PyFloat (Fin (1 / 4))) (PyFloat (Fin binary64_tenth))
       clock_step
     = Inr [F32 (Fin 0), F32 (Fin (13421773 / 2 ^ 27)), F32 (Fin (13421773 / 2 ^ 26))]
   \<and> (13421773 / 2 ^ 27 :: rat) \<noteq> 0 + 1 * binary64_tenth"
proof
  show "simTs counter_child 42 (F32 (Fin 0)) (PyFloat (Fin 0)) (PyFloat (Fin (1 / 4))) (PyFloat (Fin binary64_tenth))
       clock_step
     = Inr [F32 (Fin 0), F32 (Fin (13421773 / 2 ^ 27)), F32 (Fin (13421773 / 2 ^ 26))]"
    by code_simp
  show "(13421773 / 2 ^ 27 :: rat) \<noteq> 0 + 1 * binary64_tenth"
    by (simp add: binary64_tenth_def)
qed

text \<open>
  Claim C6, amended. Whenever \<open>simTs\<close> returns a trajectory, the key was split into
  the \<open>n\<close> children of line 50, the trajectory has \<open>n\<close> rows and
  \<open>mat[i] = stepFun(keys[i], x_i, t_i, dt)\<close>, where \<open>x_0 = x0\<close>, \<open>x_(i+1) = mat[i]\<close>,
  \<open>t_0\<close> is \<open>t0\<close> as a 32-bit JAX scalar and \<open>t_(i+1) = t_i + dt\<close> in 32-bit
  arithmetic. For int arguments with \<open>t0 < tt\<close> and \<open>0 < dt\<close>, \<open>t0\<close> and \<open>dt\<close> in the
  32-bit range, \<open>simTs\<close> does return, \<open>n\<close> is \<open>\<lfloor>(tt - t0) / dt\<rfloor> + 1\<close>, and \<open>t_i\<close> is
  \<open>t0 + i * dt\<close> as a 32-bit integer. Row \<open>0\<close> is the state after the first step from
  \<open>x0\<close>: the initial state itself is not a row.
\<close>

theorem simTs_recurrence:
  "(\<forall>mat. simTs child key x0 t0 tt dt stepFun = Inr mat \<longrightarrow>
      (\<exists>n keys c h. step_count t0 tt dt = Inr n \<and> split child key n = Inr keys
         \<and> abstractify t0 = Inr c \<and> abstractify dt = Inr h
         \<and> length keys = length mat \<and> int (length mat) = n
         \<and> (\<forall>i<length mat. mat ! i =
               stepFun (keys ! i) (if i = 0 then x0 else mat ! (i - 1))
                 (((\<lambda>t. jadd t h) ^^ i) (promote c h)) dt)))
   \<and> (a < b \<and> 0 < d \<and> in_int32 a \<and> in_int32 d \<longrightarrow>
      (\<exists>keys mat. split child key (\<lfloor>(of_int b - of_int a) / (of_int d :: rat)\<rfloor> + 1) = Inr keys
         \<and> simTs child key x0 (PyInt a) (PyInt b) (PyInt d) stepFun = Inr mat
         \<and> length keys = length mat
         \<and> int (length mat) = \<lfloor>(of_int b - of_int a) / (of_int d :: rat)\<rfloor> + 1
         \<and> mat \<noteq> []
         \<and> mat ! 0 = stepFun (keys ! 0) x0 (I32 (word_of_int a)) (PyInt d)
         \<and> (\<forall>i<length mat. mat ! i =
               stepFun (keys ! i) (if i = 0 then x0 else mat ! (i - 1))
                 (I32 (word_of_int (a + int i * d))) (PyInt d))))"
proof (intro conjI allI impI)
  fix mat assume ret: "simTs child key x0 t0 tt dt stepFun = Inr mat"
  from simTs_returns [OF ret] obtain n c h where
    n: "step_count t0 tt dt = Inr n" "0 \<le> n"
    and ch: "abstractify t0 = Inr c" "abstractify dt = Inr h"
    and mat: "mat = snd (scan (advance stepFun dt h) (x0, promote c h)
                          (map (child key (nat n)) [0..<nat n]))"
    by blast
  let ?keys = "map (child key (nat n)) [0..<nat n]"
  have keys: "split child key n = Inr ?keys" using n(2) by (rule split_nonneg)
  have len: "length ?keys = length mat" unfolding mat by (simp add: scan_advance_length)
  have cnt: "int (length mat) = n" using n(2) unfolding mat by (simp add: scan_advance_length)
  have rec: "\<forall>i<length mat. mat ! i =
      stepFun (?keys ! i) (if i = 0 then x0 else mat ! (i - 1))
        (((\<lambda>t. jadd t h) ^^ i) (promote c h)) dt"
  proof (intro allI impI)
    fix i assume "i < length mat"
    then have "i < length ?keys" by (simp only: len)
    then show "mat ! i =
      stepFun (?keys ! i) (if i = 0 then x0 else mat ! (i - 1))
        (((\<lambda>t. jadd t h) ^^ i) (promote c h)) dt"
      unfolding mat by (rule scan_advance_nth)
  qed
  from n(1) keys ch len cnt rec
  show "\<exists>n keys c h. step_count t0 tt dt = Inr n \<and> split child key n = Inr keys
         \<and> abstractify t0 = Inr c \<and> abstractify dt = Inr h
         \<and> length keys = length mat \<and> int (length mat) = n
         \<and> (\<forall>i<length mat. mat ! i =
               stepFun (keys ! i) (if i = 0 then x0 else mat ! (i - 1))
                 (((\<lambda>t. jadd t h) ^^ i) (promote c h)) dt)"
    by blast
next
  assume a: "a < b \<and> 0 < d \<and> in_int32 a \<and> in_int32 d"
  let ?n = "(b - a) div d + 1"
  let ?h = "I32 (word_of_int d) :: jnum"
  let ?keys = "map (child key (nat ?n)) [0..<nat ?n]"
  let ?mat = "snd (scan (advance stepFun (PyInt d) ?h) (x0, I32 (word_of_int a)) ?keys)"
  have fl: "\<lfloor>(of_int b - of_int a) / (of_int d :: rat)\<rfloor> + 1 = ?n"
    by (simp add: floor_int_quotient)
  from a have nonneg: "0 \<le> ?n" and pos: "0 < ?n" using valid_int_count [of a b d] by simp_all
  from a have run: "simTs child key x0 (PyInt a) (PyInt b) (PyInt d) stepFun = Inr ?mat"
    using simTs_int_run [OF _ nonneg, of child key x0 stepFun] by simp
  have keys: "split child key ?n = Inr ?keys" using nonneg by (rule split_nonneg)
  have len: "length ?keys = length ?mat" by (simp add: scan_advance_length)
  have cnt: "int (length ?mat) = ?n" using nonneg by (simp add: scan_advance_length)
  have ne: "?mat \<noteq> []"
  proof
    assume "?mat = []"
    then have "int (length ?mat) = 0" by simp
    with cnt pos show False by linarith
  qed
  have rec: "\<forall>i<length ?mat. ?mat ! i =
      stepFun (?keys ! i) (if i = 0 then x0 else ?mat ! (i - 1))
        (I32 (word_of_int (a + int i * d))) (PyInt d)"
  proof (intro allI impI)
    fix i assume "i < length ?mat"
    then have "i < length ?keys" by (simp only: len)
    from scan_advance_nth [OF this, of stepFun "PyInt d" ?h x0 "I32 (word_of_int a)"]
    show "?mat ! i =
      stepFun (?keys ! i) (if i = 0 then x0 else ?mat ! (i - 1))
        (I32 (word_of_int (a + int i * d))) (PyInt d)"
      by (simp only: int_time_iterate)
  qed
  have "0 < length ?mat" using ne by simp
  with rec have first: "?mat ! 0 = stepFun (?keys ! 0) x0 (I32 (word_of_int a)) (PyInt d)"
    by fastforce
  from keys run len cnt ne first rec
  show "\<exists>keys mat. split child key (\<lfloor>(of_int b - of_int a) / (of_int d :: rat)\<rfloor> + 1) = Inr keys
         \<and> simTs child key x0 (PyInt a) (PyInt b) (PyInt d) stepFun = Inr mat
         \<and> length keys = length mat
         \<and> int (length mat) = \<lfloor>(of_int b - of_int a) / (of_int d :: rat)\<rfloor> + 1
         \<and> mat \<noteq> []
         \<and> mat ! 0 = stepFun (keys ! 0) x0 (I32 (word_of_int a)) (PyInt d)
         \<and> (\<forall>i<length mat. mat ! i =
               stepFun (keys ! i) (if i = 0 then x0 else mat ! (i - 1))
                 (I32 (word_of_int (a + int i * d))) (PyInt d))"
    unfolding fl by blast
qed

theorem simTs_recurrence_witness:
  "(\<exists>mat n keys c h. simTs counter_child 42 [50, 100] (PyInt 0) (PyInt 10) (PyInt 3) shift_step = Inr mat
       \<and> step_count (PyInt 0) (PyInt 10) (PyInt 3) = Inr n \<and> split counter_child 42 n = Inr keys
       \<and> abstractify (PyInt 0) = Inr c \<and> abstractify (PyInt 3) = Inr h
       \<and> length keys = length mat \<and> int (length mat) = n
       \<and> (\<forall>i<length mat. mat ! i =
             shift_step (keys ! i) (if i = 0 then [50, 100] else mat ! (i - 1))
               (((\<lambda>t. jadd t h) ^^ i) (promote c h)) (PyInt 3)))
   \<and> (0 :: int) < 10 \<and> (0 :: int) < 3 \<and> in_int32 0 \<and> in_int32 3
   \<and> (\<exists>keys mat. split counter_child 42 (\<lfloor>(of_int 10 - of_int 0) / (of_int 3 :: rat)\<rfloor> + 1) = Inr keys
         \<and> simTs counter_child 42 [50, 100] (PyInt 0) (PyInt 10) (PyInt 3) shift_step = Inr mat
         \<and> length keys = length mat
         \<and> int (length mat) = \<lfloor>(of_int 10 - of_int 0) / (of_int 3 :: rat)\<rfloor> + 1
         \<and> mat \<noteq> []
         \<and> mat ! 0 = shift_step (keys ! 0) [50, 100] (I32 (word_of_int 0)) (PyInt 3)
         \<and> (\<forall>i<length mat. mat ! i =
               shift_step (keys ! i) (if i = 0 then [50, 100] else mat ! (i - 1))
                 (I32 (word_of_int (0 + int i * 3))) (PyInt 3)))"
proof -
  have rng: "in_int32 0" "in_int32 3" by (simp_all add: in_int32_def)
  have lt: "(0 :: int) < 10" "(0 :: int) < 3" by simp_all
  note inst = simTs_recurrence [of counter_child 42 "[50, 100]" "PyInt 0" "PyInt 10" "PyInt 3" shift_step 0 10 3]
  from inst lt rng
  have B: "\<exists>keys mat. split counter_child 42 (\<lfloor>(of_int 10 - of_int 0) / (of_int 3 :: rat)\<rfloor> + 1) = Inr keys
         \<and> simTs counter_child 42 [50, 100] (PyInt 0) (PyInt 10) (PyInt 3) shift_step = Inr mat
         \<and> length keys = length mat
         \<and> int (length mat) = \<lfloor>(of_int 10 - of_int 0) / (of_int 3 :: rat)\<rfloor> + 1
         \<and> mat \<noteq> []
         \<and> mat ! 0 = shift_step (keys ! 0) [50, 100] (I32 (word_of_int 0)) (PyInt 3)
         \<and> (\<forall>i<length mat. mat ! i =
               shift_step (keys ! i) (if i = 0 then [50, 100] else mat ! (i - 1))
                 (I32 (word_of_int (0 + int i * 3))) (PyInt 3))"
    by blast
  then obtain mat where ret: "simTs counter_child 42 [50, 100] (PyInt 0) (PyInt 10) (PyInt 3) shift_step = Inr mat"
    by blast
  with inst
  have A: "\<exists>n keys c h. step_count (PyInt 0) (PyInt 10) (PyInt 3) = Inr n \<and> split counter_child 42 n = Inr keys
       \<and> abstractify (PyInt 0) = Inr c \<and> abstractify (PyInt 3) = Inr h
       \<and> length keys = length mat \<and> int (length mat) = n
       \<and> (\<forall>i<length mat. mat ! i =
             shift_step (keys ! i) (if i = 0 then [50, 100] else mat ! (i - 1))
               (((\<lambda>t. jadd t h) ^^ i) (promote c h)) (PyInt 3))"
    by blast
  from A ret B lt rng show ?thesis by blast
qed

subsection \<open>The last recorded time\<close>






subsection \<open>Degenerate arguments\<close>

text \<open>
  Claim C7, as stated, fails on the code: \<open>simTs\<close> checks none of its arguments.
  With \<open>tt = t0 = 0\<close> and \<open>dt = 1\<close> the step count is \<open>0 // 1 + 1 = 1\<close>; the step
  function is called once and a trajectory of one row is returned, no error.
\<close>

theorem simTs_no_validation_counterexample:
  "simTs counter_child 42 [50, 100] (PyInt 0) (PyInt 0) (PyInt 1) shift_step = Inr [[93, 143]]"
  by (simp add: simTs_def step_count_int split_def in_int32_def jit_def advance_def shift_step_def
        counter_child_def Let_def)

lemma rnd64_zero: "rnd64 0 = Fin 0"
  by (simp add: rnd64_def rnd_def)

lemma py_sub_error: "py_sub a b = Inl e \<Longrightarrow> e = OverflowError"
  by (cases a; cases b) (auto split: fval.splits sum.splits)

lemma py_floordiv_zero_int:
  "py_floordiv q (PyInt 0) = Inl ZeroDivisionError"
  by (cases q) (simp_all add: rnd64_zero)

lemma py_floordiv_zero_float:
  "py_floordiv q (PyFloat (Fin 0)) = Inl ZeroDivisionError
   \<or> py_floordiv q (PyFloat (Fin 0)) = Inl OverflowError"
  by (cases q) (auto split: fval.splits)

lemma step_count_zero_dt:
  assumes "dt = PyInt 0 \<or> dt = PyFloat (Fin 0)"
  shows "step_count t0 tt dt = Inl ZeroDivisionError \<or> step_count t0 tt dt = Inl OverflowError"
proof (cases "py_sub tt t0")
  case (Inl e)
  then have "e = OverflowError" by (rule py_sub_error)
  with Inl show ?thesis by (simp add: step_count_def)
next
  case (Inr q)
  from assms show ?thesis
  proof
    assume "dt = PyInt 0"
    with Inr show ?thesis by (simp add: step_count_def py_floordiv_zero_int)
  next
    assume "dt = PyFloat (Fin 0)"
    with Inr py_floordiv_zero_float [of q] show ?thesis by (auto simp: step_count_def)
  qed
qed

text \<open>
  Claim C7, amended. \<open>simTs\<close> checks none of its arguments and never raises an
  InvalidArgument. With \<open>dt = 0\<close> line 50 raises before any step, for every step
  function: a ZeroDivisionError (always, for int arguments), or the OverflowError
  of an int too large for a float. Otherwise the \<open>n\<close> of line 50 decides: with
  \<open>n < 0\<close> the split of the key raises before any step; with \<open>n \<ge> 0\<close>, and \<open>t0\<close>
  and \<open>dt\<close> accepted as 32-bit scalars, a trajectory of \<open>n\<close> rows is returned. For
  int arguments, \<open>t0\<close> and \<open>dt\<close> in the 32-bit range, and \<open>tt \<le> t0\<close>: with \<open>dt > 0\<close>
  and \<open>tt = t0\<close> one step is made and one row returned; with \<open>dt > 0\<close> and
  \<open>t0 - dt \<le> tt < t0\<close> the empty trajectory is returned; with \<open>dt > 0\<close> and
  \<open>tt < t0 - dt\<close> the split raises; with \<open>dt < 0\<close> a trajectory of
  \<open>\<lfloor>(tt - t0) / dt\<rfloor> + 1 \<ge> 1\<close> rows is returned.
\<close>

theorem simTs_degenerate_inputs:
  "(dt = PyInt 0 \<or> dt = PyFloat (Fin 0) \<longrightarrow>
      simTs child key x0 t0 tt dt stepFun \<in> {Inl ZeroDivisionError, Inl OverflowError})
   \<and> simTs child key x0 (PyInt a) (PyInt b) (PyInt 0) stepFun = Inl ZeroDivisionError
   \<and> (step_count t0 tt dt = Inr n \<and> n < 0 \<longrightarrow>
        simTs child key x0 t0 tt dt stepFun = Inl SplitCountError)
   \<and> (step_count t0 tt dt = Inr n \<and> 0 \<le> n \<and> abstractify t0 = Inr c \<and> abstractify dt = Inr h \<longrightarrow>
        (\<exists>mat. simTs child key x0 t0 tt dt stepFun = Inr mat \<and> int (length mat) = n))
   \<and> (0 < d \<and> b = a \<and> in_int32 a \<and> in_int32 d \<longrightarrow>
        simTs child key x0 (PyInt a) (PyInt b) (PyInt d) stepFun
          = Inr [stepFun (child key 1 0) x0 (I32 (word_of_int a)) (PyInt d)])
   \<and> (0 < d \<and> a - d \<le> b \<and> b < a \<and> in_int32 a \<and> in_int32 d \<longrightarrow>
        simTs child key x0 (PyInt a) (PyInt b) (PyInt d) stepFun = Inr [])
   \<and> (0 < d \<and> b < a - d \<longrightarrow>
        simTs child key x0 (PyInt a) (PyInt b) (PyInt d) stepFun = Inl SplitCountError)
   \<and> (d < 0 \<and> b \<le> a \<and> in_int32 a \<and> in_int32 d \<longrightarrow>
        (\<exists>mat. simTs child key x0 (PyInt a) (PyInt b) (PyInt d) stepFun = Inr mat
           \<and> int (length mat) = (b - a) div d + 1 \<and> 1 \<le> length mat))"
proof (intro conjI impI)
  assume "dt = PyInt 0 \<or> dt = PyFloat (Fin 0)"
  from step_count_zero_dt [OF this, of t0 tt]
  show "simTs child key x0 t0 tt dt stepFun \<in> {Inl ZeroDivisionError, Inl OverflowError}"
    by (auto simp: simTs_count_error)
next
  show "simTs child key x0 (PyInt a) (PyInt b) (PyInt 0) stepFun = Inl ZeroDivisionError"
    by (simp add: simTs_count_error step_count_int)
next
  assume "step_count t0 tt dt = Inr n \<and> n < 0"
  then show "simTs child key x0 t0 tt dt stepFun = Inl SplitCountError"
    by (simp add: simTs_neg_count)
next
  assume a: "step_count t0 tt dt = Inr n \<and> 0 \<le> n \<and> abstractify t0 = Inr c \<and> abstractify dt = Inr h"
  then have "simTs child key x0 t0 tt dt stepFun =
     Inr (snd (scan (advance stepFun dt h) (x0, promote c h) (map (child key (nat n)) [0..<nat n])))"
    by (intro simTs_run) simp_all
  moreover from a have "int (length (snd (scan (advance stepFun dt h) (x0, promote c h)
      (map (child key (nat n)) [0..<nat n])))) = n"
    by (simp add: scan_advance_length)
  ultimately show "\<exists>mat. simTs child key x0 t0 tt dt stepFun = Inr mat \<and> int (length mat) = n"
    by blast
next
  assume a: "0 < d \<and> b = a \<and> in_int32 a \<and> in_int32 d"
  then have q: "(b - a) div d + 1 = 1" by simp
  from a have "d \<noteq> 0" and "0 \<le> (b - a) div d + 1" and "in_int32 a" and "in_int32 d" by simp_all
  from simTs_int_run [OF this, of child key x0 stepFun]
  show "simTs child key x0 (PyInt a) (PyInt b) (PyInt d) stepFun
          = Inr [stepFun (child key 1 0) x0 (I32 (word_of_int a)) (PyInt d)]"
    unfolding q by (simp add: advance_def Let_def)
next
  assume a: "0 < d \<and> a - d \<le> b \<and> b < a \<and> in_int32 a \<and> in_int32 d"
  then have "(b - a) div d = - 1"
    by (intro int_div_pos_eq [of _ _ _ "b - a + d"]) simp_all
  then have q: "(b - a) div d + 1 = 0" by simp
  from a have "d \<noteq> 0" and "0 \<le> (b - a) div d + 1" and "in_int32 a" and "in_int32 d"
    by (simp_all add: q)
  from simTs_int_run [OF this, of child key x0 stepFun]
  show "simTs child key x0 (PyInt a) (PyInt b) (PyInt d) stepFun = Inr []"
    unfolding q by simp
next
  assume a: "0 < d \<and> b < a - d"
  have "d * ((b - a) div d) + (b - a) mod d = b - a" by (rule mult_div_mod_eq)
  moreover from a have "0 \<le> (b - a) mod d" by simp
  ultimately have "d * ((b - a) div d) < d * (- 1)" using a by linarith
  with a have "(b - a) div d < - 1" by (simp only: mult_less_cancel_left_pos)
  then have "(b - a) div d + 1 < 0" by simp
  moreover from a have "step_count (PyInt a) (PyInt b) (PyInt d) = Inr ((b - a) div d + 1)"
    by (simp add: step_count_int)
  ultimately show "simTs child key x0 (PyInt a) (PyInt b) (PyInt d) stepFun = Inl SplitCountError"
    by (intro simTs_neg_count)
next
  assume a: "d < 0 \<and> b \<le> a \<and> in_int32 a \<and> in_int32 d"
  then have q0: "0 \<le> (b - a) div d" by (simp add: neg_imp_zdiv_nonneg_iff)
  let ?n = "(b - a) div d + 1"
  let ?mat = "snd (scan (advance stepFun (PyInt d) (I32 (word_of_int d))) (x0, I32 (word_of_int a))
            (map (child key (nat ?n)) [0..<nat ?n]))"
  from a q0 have "d \<noteq> 0" and "0 \<le> ?n" and "in_int32 a" and "in_int32 d" by simp_all
  from simTs_int_run [OF this, of child key x0 stepFun]
  have run: "simTs child key x0 (PyInt a) (PyInt b) (PyInt d) stepFun = Inr ?mat" .
  have "length ?mat = nat ?n" by (simp add: scan_advance_length)
  with q0 have "int (length ?mat) = ?n" and "1 \<le> length ?mat" by linarith+
  with run show "\<exists>mat. simTs child key x0 (PyInt a) (PyInt b) (PyInt d) stepFun = Inr mat
           \<and> int (length mat) = (b - a) div d + 1 \<and> 1 \<le> length mat"
    by blast
qed

theorem simTs_degenerate_inputs_witness:
  "simTs counter_child 42 [50, 100] (PyFloat (Fin binary64_tenth)) (PyInt 10) (PyInt 0) shift_step
      \<in> {Inl ZeroDivisionError, Inl OverflowError}
   \<and> simTs counter_child 42 [50, 100] (PyInt 0) (PyInt 10) (PyInt 0) shift_step = Inl ZeroDivisionError
   \<and> step_count (PyInt 5) (PyInt 2) (PyInt 1) = Inr (- 2) \<and> (- 2 :: int) < 0
   \<and> simTs counter_child 42 [50, 100] (PyInt 5) (PyInt 2) (PyInt 1) shift_step = Inl SplitCountError
   \<and> step_count (PyInt 0) (PyInt 10) (PyInt 3) = Inr 4 \<and> (0 :: int) \<le> 4
   \<and> abstractify (PyInt 0) = Inr (I32 0) \<and> abstractify (PyInt 3) = Inr (I32 3)
   \<and> (\<exists>mat. simTs counter_child 42 [50, 100] (PyInt 0) (PyInt 10) (PyInt 3) shift_step = Inr mat
         \<and> int (length mat) = 4)
   \<and> in_int32 5 \<and> in_int32 1 \<and> in_int32 (- 3)
   \<and> simTs counter_child 42 [50, 100] (PyInt 5) (PyInt 5) (PyInt 1) shift_step
        = Inr [shift_step (counter_child 42 1 0) [50, 100] (I32 (word_of_int 5)) (PyInt 1)]
   \<and> simTs counter_child 42 [50, 100] (PyInt 5) (PyInt 4) (PyInt 1) shift_step = Inr []
   \<and> (\<exists>mat. simTs counter_child 42 [50, 100] (PyInt 5) (PyInt 0) (PyInt (- 3)) shift_step = Inr mat
         \<and> int (length mat) = (0 - 5) div (- 3) + 1 \<and> 1 \<le> length mat)"
proof -
  have rng: "in_int32 5" "in_int32 1" "in_int32 (- 3)" "in_int32 0" "in_int32 3"
    by (simp_all add: in_int32_def)
  have c1: "step_count (PyInt 5) (PyInt 2) (PyInt 1) = Inr (- 2)"
    and c2: "step_count (PyInt 0) (PyInt 10) (PyInt 3) = Inr 4"
    by (simp_all add: step_count_int)
  have a1: "abstractify (PyInt 0) = Inr (I32 0)" and a2: "abstractify (PyInt 3) = Inr (I32 3)"
    using rng by simp_all
  show ?thesis
    using rng c1 c2 a1 a2
      simTs_degenerate_inputs [where dt = "PyInt 0" and child = counter_child and key = 42
        and ?x0.0 = "[50, 100]" and ?t0.0 = "PyFloat (Fin binary64_tenth)" and tt = "PyInt 10"
        and stepFun = shift_step and a = 0 and b = 10]
      simTs_degenerate_inputs [where dt = "PyInt 1" and child = counter_child and key = 42
        and ?x0.0 = "[50, 100]" and ?t0.0 = "PyInt 5" and tt = "PyInt 2"
        and stepFun = shift_step and n = "- 2" and a = 5 and b = 5 and d = 1]
      simTs_degenerate_inputs [where dt = "PyInt 3" and child = counter_child and key = 42
        and ?x0.0 = "[50, 100]" and ?t0.0 = "PyInt 0" and tt = "PyInt 10"
        and stepFun = shift_step and n = 4 and c = "I32 0" and h = "I32 3"
        and a = 5 and b = 4 and d = 1]
      simTs_degenerate_inputs [where child = counter_child and key = 42
        and ?x0.0 = "[50, 100]" and stepFun = shift_step and a = 5 and b = 0 and d = "- 3"]
    by simp
qed

subsection \<open>Runs with floats and at the 32-bit bounds\<close>

text \<open>
  With the floats \<open>t0 = 1.1\<close>, \<open>tt = 0.1\<close>, \<open>dt = 1.0\<close> the difference is rounded to
  \<open>-1.0\<close> and the trajectory is empty. A 32-bit integer time wraps around, an int
  initial time from \<open>2 ^ 31\<close> on is refused, and a binary32 time of \<open>2 ^ 24\<close> no
  longer moves by steps of one.
\<close>

lemma step_count_backwards:
  "step_count (PyFloat (Fin binary64_1_1)) (PyFloat (Fin binary64_tenth)) (PyFloat (Fin 1)) = Inr 0"
  by code_simp

lemma simTs_float_empty:
  "simTs child key x0 (PyFloat (Fin binary64_1_1)) (PyFloat (Fin binary64_tenth)) (PyFloat (Fin 1))
     trivial_step = Inr []"
  using simTs_trivial_float [OF step_count_backwards, of child key x0] by simp

lemma simTs_int32_wraps:
  "simTs counter_child 42 (I32 0) (PyInt 2147483646) (PyInt 2147483648) (PyInt 1) clock_step
     = Inr [I32 2147483646, I32 2147483647, I32 (- 2147483648)]"
  by code_simp

lemma simTs_int32_refused:
  "simTs child key x0 (PyInt 2147483648) (PyInt 2147483649) (PyInt 1) stepFun = Inl OverflowError"
  by (simp add: simTs_def step_count_int split_def in_int32_def)

lemma simTs_float32_stalls:
  "simTs counter_child 42 (F32 (Fin 0)) (PyFloat (Fin 16777216)) (PyFloat (Fin 16777218)) (PyFloat (Fin 1))
     clock_step
     = Inr [F32 (Fin 16777216), F32 (Fin 16777216), F32 (Fin 16777216)]"
  by code_simp

end
